theory Spec2Isabelle
  imports Main "HOL-Library.Sublist"
begin

section \<open>Text and character classes\<close>

text \<open>
  A JavaScript string is a sequence of code units. The model writes a text as a
  \<^typ>\<open>string\<close>, one \<^typ>\<open>char\<close> per code unit, which covers the code units
  \<open>0x00\<close> to \<open>0xFF\<close>. None of the regular expressions of the source carries the
  \<open>u\<close> or \<open>i\<close> flag, so \<open>\w\<close> and \<open>\d\<close> are the ASCII classes, and \<open>\s\<close> is
  the white space of ECMAScript, of which tab, line feed, vertical tab, form feed,
  carriage return, space and the no-break space \<open>0xA0\<close> lie in this range.
\<close>

definition isDigit :: "char \<Rightarrow> bool" where
  "isDigit c = (c \<in> set ''0123456789'')"

definition isAlphaUnderscore :: "char \<Rightarrow> bool" where
  "isAlphaUnderscore c =
     (c \<in> set ''abcdefghijklmnopqrstuvwxyzABCDEFGHIJKLMNOPQRSTUVWXYZ_'')"

definition isWordChar :: "char \<Rightarrow> bool" where
  "isWordChar c = (isAlphaUnderscore c \<or> isDigit c)"

definition isSpaceChar :: "char \<Rightarrow> bool" where
  "isSpaceChar c =
     (c \<in> set [CHR 0x09, CHR 0x0A, CHR 0x0B, CHR 0x0C, CHR 0x0D, CHR 0x20, CHR 0xA0])"

definition apostrophe :: char where
  "apostrophe = CHR 0x27"

text \<open>\<open>stripPrefix p s\<close> matches the literal \<open>p\<close> at the start of \<open>s\<close> and returns the rest.\<close>

definition stripPrefix :: "string \<Rightarrow> string \<Rightarrow> string option" where
  "stripPrefix p s = (if prefix p s then Some (drop (length p) s) else None)"

text \<open>\<open>optDash\<close> is the regular expression \<open>-?\<close>: it consumes one hyphen when there is one.\<close>

definition optDash :: "string \<Rightarrow> string" where
  "optDash s = (case s of [] \<Rightarrow> [] | c # cs \<Rightarrow> if c = CHR ''-'' then cs else s)"

section \<open>The four scanners of the validator\<close>

text \<open>
  Each matcher takes the rest of the line from a start position and returns, when the
  regular expression matches there, the first capture group and the length of the whole
  match. The quantifiers of these expressions never need to give characters back for
  the match to succeed (the classes that follow each other are disjoint), except
  \<open>[^%]*\<close> before \<open>-?%}\<close>, where giving back a hyphen leaves the end of the match
  where it was.
\<close>

text \<open>\<open>outputStartRegex = /\{\{-?/g\<close>\<close>

definition matchOutputStart :: "string \<Rightarrow> (string \<times> nat) option" where
  "matchOutputStart s =
     (case stripPrefix ''{{'' s of
        None \<Rightarrow> None
      | Some s1 \<Rightarrow> Some ([], length s - length (optDash s1)))"

text \<open>\<open>outputEndRegex = /-?\}\}/g\<close>\<close>

definition matchOutputEnd :: "string \<Rightarrow> (string \<times> nat) option" where
  "matchOutputEnd s =
     (if prefix ''-}}'' s then Some ([], 3)
      else if prefix ''}}'' s then Some ([], 2)
      else None)"

text \<open>\<open>tagRegex = /{%-?\s*(\w+)(?:\s[^%]*)?-?%}/g\<close>\<close>

definition matchTag :: "string \<Rightarrow> (string \<times> nat) option" where
  "matchTag s =
     (case stripPrefix ''{%'' s of
        None \<Rightarrow> None
      | Some s1 \<Rightarrow>
          (let s2 = dropWhile isSpaceChar (optDash s1);
               name = takeWhile isWordChar s2;
               s3 = dropWhile isWordChar s2
           in if name = [] then None
              else (case s3 of
                      [] \<Rightarrow> None
                    | c # cs \<Rightarrow>
                        (let s4 = (if isSpaceChar c then dropWhile (\<lambda>x. x \<noteq> CHR ''%'') cs
                                   else optDash s3)
                         in if prefix ''%}'' s4
                            then Some (name, length s - length s4 + 2)
                            else None))))"

text \<open>\<open>endTagRegex = /{%-?\s*end(\w+)\s*-?%}/g\<close>\<close>

definition matchEndTag :: "string \<Rightarrow> (string \<times> nat) option" where
  "matchEndTag s =
     (case stripPrefix ''{%'' s of
        None \<Rightarrow> None
      | Some s1 \<Rightarrow>
          (case stripPrefix ''end'' (dropWhile isSpaceChar (optDash s1)) of
             None \<Rightarrow> None
           | Some s2 \<Rightarrow>
               (let name = takeWhile isWordChar s2;
                    s3 = optDash (dropWhile isSpaceChar (dropWhile isWordChar s2))
                in if name \<noteq> [] \<and> prefix ''%}'' s3
                   then Some (name, length s - length s3 + 2)
                   else None)))"

text \<open>
  The loop \<open>match = re.exec(line); while (match !== null) { ...; match = re.exec(line) }\<close>
  of a global regular expression: the search starts at \<open>lastIndex\<close>, tries every start
  position from there, and a match moves \<open>lastIndex\<close> behind itself. The result is the
  list of the matches as (index, capture group, length of the match). No expression of
  the source matches the empty string, so the search always advances.
\<close>

fun execAll :: "(string \<Rightarrow> (string \<times> nat) option) \<Rightarrow> nat \<Rightarrow> string \<Rightarrow> (nat \<times> string \<times> nat) list" where
  "execAll m i [] = []"
| "execAll m i (c # cs) =
     (case m (c # cs) of
        None \<Rightarrow> execAll m (Suc i) cs
      | Some (g, n) \<Rightarrow> (i, g, n) # execAll m (i + n) (drop (n - 1) cs))"

text \<open>\<open>text.split(/\r?\n/)\<close>\<close>

fun splitLines :: "string \<Rightarrow> string list" where
  "splitLines [] = [[]]"
| "splitLines (c # cs) =
     (if c = CHR 0x0D \<and> prefix [CHR 0x0A] cs then [] # splitLines (drop 1 cs)
      else if c = CHR 0x0A then [] # splitLines cs
      else (case splitLines cs of
              [] \<Rightarrow> [[c]]
            | l # ls \<Rightarrow> (c # l) # ls))"

section \<open>The structural validator\<close>

datatype MarkerSeverity = Hint | Info | Warning | Error

record marker =
  severity :: MarkerSeverity
  message :: string
  startLineNumber :: nat
  startColumn :: nat
  endLineNumber :: nat
  endColumn :: nat

text \<open>
  The frames of the stack. The validator of \<open>src/index.ts\<close> keeps tag, line and column;
  the one of the second source file adds the length of the opening construct.
\<close>

record frame_index =
  tag :: string
  lineNumber :: nat
  column :: nat

record frame = frame_index +
  length_of :: nat

datatype outputType = OStart | OEnd

definition blockTags :: "string list" where
  "blockTags =
     [''if'', ''unless'', ''case'', ''for'', ''tablerow'', ''comment'', ''raw'', ''capture'',
      ''form'', ''paginate'', ''layout'', ''block'', ''schema'', ''stylesheet'',
      ''javascript'', ''liquid'']"

definition isBlockTag :: "string \<Rightarrow> bool" where
  "isBlockTag t = (t \<in> set blockTags)"

text \<open>\<open>Array.prototype.findLastIndex\<close>, with \<open>None\<close> for the result \<open>-1\<close>.\<close>

fun findLastIndex :: "('a \<Rightarrow> bool) \<Rightarrow> 'a list \<Rightarrow> nat option" where
  "findLastIndex p [] = None"
| "findLastIndex p (x # xs) =
     (case findLastIndex p xs of
        Some i \<Rightarrow> Some (Suc i)
      | None \<Rightarrow> if p x then Some 0 else None)"

text \<open>\<open>stack.splice(i, 1)\<close>\<close>

definition splice1 :: "nat \<Rightarrow> 'a list \<Rightarrow> 'a list" where
  "splice1 i xs = take i xs @ drop (Suc i) xs"

definition unmatchedClosing :: "nat \<Rightarrow> nat \<Rightarrow> marker" where
  "unmatchedClosing ln idx =
     \<lparr>severity = Error,
      message = ''Unmatched closing '' @ [apostrophe] @ ''}}'' @ [apostrophe],
      startLineNumber = ln, startColumn = idx + 1,
      endLineNumber = ln, endColumn = idx + 3\<rparr>"

text \<open>The body of \<open>outputMatches.forEach\<close>.\<close>

fun replayOutput :: "nat \<Rightarrow> frame list \<times> marker list \<Rightarrow> outputType \<times> nat \<Rightarrow> frame list \<times> marker list" where
  "replayOutput ln (stack, markers) (OStart, idx) =
     (stack @ [\<lparr>tag = ''output'', lineNumber = ln, column = idx + 1, length_of = 2\<rparr>], markers)"
| "replayOutput ln (stack, markers) (OEnd, idx) =
     (case findLastIndex (\<lambda>item. tag item = ''output'') stack of
        None \<Rightarrow> (stack, markers @ [unmatchedClosing ln idx])
      | Some outputIndex \<Rightarrow> (splice1 outputIndex stack, markers))"

text \<open>The body of the loop over the matches of \<open>tagRegex\<close>.\<close>

fun openTag :: "nat \<Rightarrow> frame list \<Rightarrow> nat \<times> string \<times> nat \<Rightarrow> frame list" where
  "openTag ln stack (position, t, n) =
     (if \<not> prefix ''end'' t \<and> isBlockTag t
      then stack @ [\<lparr>tag = t, lineNumber = ln, column = position + 1, length_of = n\<rparr>]
      else stack)"

definition unmatchedEndTag :: "nat \<Rightarrow> nat \<Rightarrow> string \<Rightarrow> nat \<Rightarrow> marker" where
  "unmatchedEndTag ln position endTag n =
     \<lparr>severity = Error,
      message = ''Unmatched end tag '' @ [apostrophe] @ ''end'' @ endTag @ [apostrophe],
      startLineNumber = ln, startColumn = position + 1,
      endLineNumber = ln, endColumn = position + n + 1\<rparr>"

definition mismatchedEndTag :: "nat \<Rightarrow> nat \<Rightarrow> string \<Rightarrow> string \<Rightarrow> nat \<Rightarrow> marker" where
  "mismatchedEndTag ln position lastTag endTag n =
     \<lparr>severity = Error,
      message = ''Expected '' @ [apostrophe] @ ''end'' @ lastTag @ [apostrophe]
                @ '' but found '' @ [apostrophe] @ ''end'' @ endTag @ [apostrophe],
      startLineNumber = ln, startColumn = position + 1,
      endLineNumber = ln, endColumn = position + n + 1\<rparr>"

text \<open>The body of the loop over the matches of \<open>endTagRegex\<close>.\<close>

fun closeTag :: "nat \<Rightarrow> ('a frame_index_scheme) list \<times> marker list \<Rightarrow> nat \<times> string \<times> nat \<Rightarrow> ('a frame_index_scheme) list \<times> marker list" where
  "closeTag ln (stack, markers) (position, endTag, n) =
     (if stack = [] then (stack, markers @ [unmatchedEndTag ln position endTag n])
      else (butlast stack,
            if tag (last stack) \<noteq> endTag
            then markers @ [mismatchedEndTag ln position (tag (last stack)) endTag n]
            else markers))"

text \<open>The output markers of a line: all starts, then all ends, sorted by index.\<close>

definition outputMatches :: "string \<Rightarrow> (outputType \<times> nat) list" where
  "outputMatches lineContent =
     sort_key snd
       (map (\<lambda>(i, g, n). (OStart, i)) (execAll matchOutputStart 0 lineContent)
        @ map (\<lambda>(i, g, n). (OEnd, i)) (execAll matchOutputEnd 0 lineContent))"

text \<open>The body of \<open>lines.forEach\<close>, for the line with number \<open>ln\<close>.\<close>

definition validateLine :: "nat \<Rightarrow> frame list \<times> marker list \<Rightarrow> string \<Rightarrow> frame list \<times> marker list" where
  "validateLine ln st lineContent =
     (let st1 = foldl (replayOutput ln) st (outputMatches lineContent);
          st2 = (foldl (openTag ln) (fst st1) (execAll matchTag 0 lineContent), snd st1)
      in foldl (closeTag ln) st2 (execAll matchEndTag 0 lineContent))"

fun forEachLine :: "nat \<Rightarrow> frame list \<times> marker list \<Rightarrow> string list \<Rightarrow> frame list \<times> marker list" where
  "forEachLine index st [] = st"
| "forEachLine index st (lineContent # rest) =
     forEachLine (index + 1) (validateLine (index + 1) st lineContent) rest"

definition unclosedMessage :: "string \<Rightarrow> string" where
  "unclosedMessage t =
     (if t = ''output'' then ''Unclosed output tag '' @ [apostrophe] @ ''{{'' @ [apostrophe]
      else ''Unclosed tag '' @ [apostrophe] @ t @ [apostrophe])"

definition unclosedMarker :: "frame \<Rightarrow> marker" where
  "unclosedMarker unmatchedTag =
     \<lparr>severity = Error,
      message = unclosedMessage (tag unmatchedTag),
      startLineNumber = lineNumber unmatchedTag, startColumn = column unmatchedTag,
      endLineNumber = lineNumber unmatchedTag,
      endColumn = column unmatchedTag + length_of unmatchedTag\<rparr>"

text \<open>The final loop \<open>while (stack.length > 0)\<close>.\<close>

fun drainStack :: "frame list \<Rightarrow> marker list \<Rightarrow> marker list" where
  "drainStack stack markers =
     (if stack = [] then markers
      else drainStack (butlast stack) (markers @ [unclosedMarker (last stack)]))"

text \<open>
  \<open>validateLiquidSyntax\<close> of the second source file; the result is the list handed to
  \<open>setModelMarkers\<close>.
\<close>

definition validateLiquidSyntax :: "string \<Rightarrow> marker list" where
  "validateLiquidSyntax text =
     (let st = forEachLine 0 ([], []) (splitLines text)
      in drainStack (fst st) (snd st))"

section \<open>The validator of \<open>src/index.ts\<close>\<close>

text \<open>
  The scanners, the split into lines and the handling of closing tags are the same text in
  both files. The list of block tags has no \<open>liquid\<close>, the frames have no length, an
  output-close marker pops frames until it has popped an output frame, and an unclosed
  construct is reported with an empty range.
\<close>

definition blockTags_index :: "string list" where
  "blockTags_index =
     [''if'', ''unless'', ''case'', ''for'', ''tablerow'', ''comment'', ''raw'', ''capture'',
      ''form'', ''paginate'', ''layout'', ''block'', ''schema'', ''stylesheet'',
      ''javascript'']"

definition isBlockTag_index :: "string \<Rightarrow> bool" where
  "isBlockTag_index t = (t \<in> set blockTags_index)"

text \<open>
  \<open>let last; while (stack.length > 0) { last = stack.pop(); if (last?.tag === 'output') break }\<close>:
  the result is the stack after the loop and the value of \<open>last\<close> (\<open>None\<close> for
  \<open>undefined\<close>).
\<close>

fun popUntilOutput :: "frame_index option \<Rightarrow> frame_index list \<Rightarrow> frame_index list \<times> frame_index option" where
  "popUntilOutput lastPopped stack =
     (if stack = [] then (stack, lastPopped)
      else if tag (last stack) = ''output'' then (butlast stack, Some (last stack))
      else popUntilOutput (Some (last stack)) (butlast stack))"

fun replayOutput_index :: "nat \<Rightarrow> frame_index list \<times> marker list \<Rightarrow> outputType \<times> nat \<Rightarrow> frame_index list \<times> marker list" where
  "replayOutput_index ln (stack, markers) (OStart, idx) =
     (stack @ [\<lparr>tag = ''output'', lineNumber = ln, column = idx + 1\<rparr>], markers)"
| "replayOutput_index ln (stack, markers) (OEnd, idx) =
     (case popUntilOutput None stack of
        (stack', None) \<Rightarrow> (stack', markers @ [unmatchedClosing ln idx])
      | (stack', Some l) \<Rightarrow>
          (stack', if tag l \<noteq> ''output'' then markers @ [unmatchedClosing ln idx] else markers))"

fun openTag_index :: "nat \<Rightarrow> frame_index list \<Rightarrow> nat \<times> string \<times> nat \<Rightarrow> frame_index list" where
  "openTag_index ln stack (position, t, n) =
     (if \<not> prefix ''end'' t \<and> isBlockTag_index t
      then stack @ [\<lparr>tag = t, lineNumber = ln, column = position + 1\<rparr>]
      else stack)"

definition validateLine_index :: "nat \<Rightarrow> frame_index list \<times> marker list \<Rightarrow> string \<Rightarrow> frame_index list \<times> marker list" where
  "validateLine_index ln st lineContent =
     (let st1 = foldl (replayOutput_index ln) st (outputMatches lineContent);
          st2 = (foldl (openTag_index ln) (fst st1) (execAll matchTag 0 lineContent), snd st1)
      in foldl (closeTag ln) st2 (execAll matchEndTag 0 lineContent))"

fun forEachLine_index :: "nat \<Rightarrow> frame_index list \<times> marker list \<Rightarrow> string list \<Rightarrow> frame_index list \<times> marker list" where
  "forEachLine_index index st [] = st"
| "forEachLine_index index st (lineContent # rest) =
     forEachLine_index (index + 1) (validateLine_index (index + 1) st lineContent) rest"

text \<open>\<open>x || 1\<close> on a number.\<close>

definition orOne :: "nat \<Rightarrow> nat" where
  "orOne x = (if x = 0 then 1 else x)"

definition unclosedMarker_index :: "frame_index \<Rightarrow> marker" where
  "unclosedMarker_index unmatchedTag =
     \<lparr>severity = Error,
      message = unclosedMessage (tag unmatchedTag),
      startLineNumber = orOne (lineNumber unmatchedTag),
      startColumn = orOne (column unmatchedTag),
      endLineNumber = orOne (lineNumber unmatchedTag),
      endColumn = orOne (column unmatchedTag)\<rparr>"

fun drainStack_index :: "frame_index list \<Rightarrow> marker list \<Rightarrow> marker list" where
  "drainStack_index stack markers =
     (if stack = [] then markers
      else drainStack_index (butlast stack) (markers @ [unclosedMarker_index (last stack)]))"

definition validateLiquidSyntax_index :: "string \<Rightarrow> marker list" where
  "validateLiquidSyntax_index text =
     (let st = forEachLine_index 0 ([], []) (splitLines text)
      in drainStack_index (fst st) (snd st))"

section \<open>Type descriptors and the schema path resolver\<close>

text \<open>
  A literal value is a string, or another primitive (number, bigint, boolean, null,
  undefined), kept as the text that \<open>String(value)\<close> gives for it.
\<close>

datatype literalValue = StringValue string | OtherValue string

text \<open>
  The classes of the schema library that the source tests with \<open>instanceof\<close>, and
  \<open>ZodOther\<close> for an instance of any other class. \<open>ZodObject\<close> carries its shape,
  \<open>ZodLiteral\<close> the array \<open>_zod.def.values\<close>, \<open>ZodEnum\<close> the list
  \<open>Object.values(_zod.def.entries)\<close>, \<open>ZodUnion\<close> the array \<open>_zod.def.options\<close>.
\<close>

datatype schema =
    ZodOptional schema
  | ZodNullable schema
  | ZodDefault schema
  | ZodArray schema
  | ZodObject "(string \<times> schema) list"
  | ZodString
  | ZodNumber
  | ZodBoolean
  | ZodDate
  | ZodLiteral "literalValue list"
  | ZodEnum "string list"
  | ZodUnion "schema list"
  | ZodOther

fun unwrapSchema :: "schema \<Rightarrow> schema" where
  "unwrapSchema (ZodOptional innerType) = unwrapSchema innerType"
| "unwrapSchema (ZodNullable innerType) = unwrapSchema innerType"
| "unwrapSchema (ZodDefault innerType) = unwrapSchema innerType"
| "unwrapSchema schema = schema"

text \<open>\<open>/^\d+$/.test(segment)\<close>\<close>

definition isArrayIndex :: "string \<Rightarrow> bool" where
  "isArrayIndex segment = (segment \<noteq> [] \<and> list_all isDigit segment)"

text \<open>
  The loop of \<open>navigateSchema\<close> over the segments, from the current schema; \<open>None\<close> is
  the result \<open>null\<close>.
\<close>

fun navigateLoop :: "schema \<Rightarrow> string list \<Rightarrow> schema option" where
  "navigateLoop currentSchema [] = Some currentSchema"
| "navigateLoop currentSchema (segment # rest) =
     (let c1 = unwrapSchema currentSchema;
          c2 = (case c1 of ZodArray element \<Rightarrow> unwrapSchema element | _ \<Rightarrow> c1)
      in if isArrayIndex segment then navigateLoop c2 rest
         else (case c2 of
                 ZodObject shape \<Rightarrow>
                   (case map_of shape segment of
                      Some field \<Rightarrow> navigateLoop field rest
                    | None \<Rightarrow> None)
               | _ \<Rightarrow> None))"

definition navigateSchema :: "schema \<Rightarrow> string list \<Rightarrow> schema option" where
  "navigateSchema schema path =
     map_option unwrapSchema (navigateLoop (unwrapSchema schema) path)"

text \<open>\<open>Array.prototype.join\<close> on an array of strings.\<close>

fun join :: "string \<Rightarrow> string list \<Rightarrow> string" where
  "join sep [] = []"
| "join sep [x] = x"
| "join sep (x # y # ys) = x @ sep @ join sep (y # ys)"

definition doubleQuote :: char where
  "doubleQuote = CHR 0x22"

function getTypeString :: "schema \<Rightarrow> string" where
  "getTypeString schema =
     (case unwrapSchema schema of
        ZodArray element \<Rightarrow> ''Array<'' @ getTypeString element @ ''>''
      | ZodObject shape \<Rightarrow> ''Object''
      | ZodString \<Rightarrow> ''String''
      | ZodNumber \<Rightarrow> ''Number''
      | ZodBoolean \<Rightarrow> ''Boolean''
      | ZodDate \<Rightarrow> ''Date''
      | ZodLiteral values \<Rightarrow>
          (case values of
             [] \<Rightarrow> ''undefined''
           | StringValue v # _ \<Rightarrow> [doubleQuote] @ v @ [doubleQuote]
           | OtherValue t # _ \<Rightarrow> t)
      | ZodEnum values \<Rightarrow> join '' | '' (map (\<lambda>v. [doubleQuote] @ v @ [doubleQuote]) values)
      | ZodUnion options \<Rightarrow> join '' | '' (map getTypeString options)
      | _ \<Rightarrow> ''Unknown'')"
  by pat_completeness auto
termination
proof (relation "measure size")
  have le: "size (unwrapSchema s) \<le> size s" for s
    by (induction s rule: unwrapSchema.induct) simp_all
  show "wf (measure size)" by simp
  show "(element, schema) \<in> measure size"
    if "unwrapSchema schema = ZodArray element" for schema element
    using that le [of schema] by simp
  show "(opt, schema) \<in> measure size"
    if u: "unwrapSchema schema = ZodUnion options" and m: "opt \<in> set options"
    for schema options opt
  proof -
    from m have "size opt \<le> size_list size options"
      by (simp add: size_list_estimation')
    then show ?thesis using u le [of schema] by simp
  qed
qed

definition getTypeInfoFromSchema :: "schema \<Rightarrow> string list \<Rightarrow> string option" where
  "getTypeInfoFromSchema schema path =
     (case navigateSchema schema path of
        None \<Rightarrow> None
      | Some navigated \<Rightarrow> Some (getTypeString navigated))"

section \<open>The path extractor and the schema suggestions\<close>

text \<open>The class \<open>[\w\-.\[\]]\<close>.\<close>

definition isPathChar :: "char \<Rightarrow> bool" where
  "isPathChar c = (isWordChar c \<or> c \<in> set ''-.[]'')"

text \<open>
  \<open>/[a-zA-Z_][\w\-.\[\]]*$/.exec(s)\<close>: the expression is tried at every start position
  from the left, and \<open>$\<close> holds at the end of the string only, so that a match at a
  position takes the whole rest of the string.
\<close>

fun execVariablePath :: "string \<Rightarrow> string option" where
  "execVariablePath [] = None"
| "execVariablePath (c # cs) =
     (if isAlphaUnderscore c \<and> list_all isPathChar cs then Some (c # cs)
      else execVariablePath cs)"

text \<open>
  \<open>getVariablePathAtPosition\<close>, from the content of the line of the position and the
  column of the position; \<open>substring(0, col - 1)\<close> is \<open>take (col - 1)\<close>.
\<close>

definition getVariablePathAtPosition :: "string \<Rightarrow> nat \<Rightarrow> string option" where
  "getVariablePathAtPosition lineContent col =
     execVariablePath (take (col - 1) lineContent)"

text \<open>\<open>String.prototype.split\<close> on a separator that is one character of a class.\<close>

fun splitOn :: "(char \<Rightarrow> bool) \<Rightarrow> string \<Rightarrow> string list" where
  "splitOn sep [] = [[]]"
| "splitOn sep (c # cs) =
     (if sep c then [] # splitOn sep cs
      else (case splitOn sep cs of
              [] \<Rightarrow> [[c]]
            | l # ls \<Rightarrow> (c # l) # ls))"

definition isPathSeparator :: "char \<Rightarrow> bool" where
  "isPathSeparator c = (c \<in> set ''.[]'')"

text \<open>\<open>variablePath.split(/\.|\[|\]/).filter((segment) => segment !== '')\<close>\<close>

definition pathSegments :: "string \<Rightarrow> string list" where
  "pathSegments variablePath =
     filter (\<lambda>segment. segment \<noteq> []) (splitOn isPathSeparator variablePath)"

datatype CompletionItemKind = Keyword | Variable | Class | Property

text \<open>A completion item without its range, which comes from the host editor.\<close>

record completionItem =
  label :: string
  kind :: CompletionItemKind
  insertText :: string
  detail :: "string option"
  documentation :: "string option"
  sortText :: string

definition getCompletionKindForSchema :: "schema \<Rightarrow> CompletionItemKind" where
  "getCompletionKindForSchema schema =
     (case unwrapSchema schema of
        ZodArray element \<Rightarrow> Variable
      | ZodObject shape \<Rightarrow> Class
      | _ \<Rightarrow> Property)"

definition getSuggestionsFromSchema :: "schema \<Rightarrow> string list \<Rightarrow> completionItem list" where
  "getSuggestionsFromSchema schema path =
     (case navigateSchema schema path of
        None \<Rightarrow> []
      | Some navigated \<Rightarrow>
          (let c1 = unwrapSchema navigated;
               c2 = (case c1 of ZodArray element \<Rightarrow> unwrapSchema element | _ \<Rightarrow> c1)
           in case c2 of
                ZodObject shape \<Rightarrow>
                  map (\<lambda>(key, v).
                         \<lparr>label = key,
                          kind = getCompletionKindForSchema v,
                          insertText = key,
                          detail = Some (getTypeString v),
                          documentation = Some (''**Type:** `'' @ getTypeString v @ ''`''),
                          sortText = ''1'' @ key\<rparr>) shape
              | _ \<Rightarrow> []))"

text \<open>
  \<open>getSchemaSuggestions\<close>; the schema set is the list of its entries in the order of
  \<open>Object.keys\<close>. \<open>pathSegments[0]\<close> of an empty array is \<open>undefined\<close>, which as a
  property key reads \<open>undefined\<close>; an empty string counts as no variable path.
\<close>

definition getSchemaSuggestions :: "(string \<times> schema) list \<Rightarrow> string \<Rightarrow> nat \<Rightarrow> completionItem list" where
  "getSchemaSuggestions schemas lineContent col =
     (case getVariablePathAtPosition lineContent col of
        Some (c # cs) \<Rightarrow>
          (let segments = pathSegments (c # cs);
               variableName = (case segments of [] \<Rightarrow> ''undefined'' | v # _ \<Rightarrow> v)
           in case map_of schemas variableName of
                Some schema \<Rightarrow> getSuggestionsFromSchema schema (drop 1 segments)
              | None \<Rightarrow> [])
      | _ \<Rightarrow>
          map (\<lambda>variableName.
                 \<lparr>label = variableName,
                  kind = Variable,
                  insertText = variableName,
                  detail = None,
                  documentation = None,
                  sortText = ''0'' @ variableName\<rparr>) (map fst schemas))"

section \<open>Notions of the specification\<close>

text \<open>
  The grammar \<open>[a-zA-Z_][\w\-.\[\]]*\<close> of a variable path, as a predicate on a whole
  string.
\<close>

definition variablePathGrammar :: "string \<Rightarrow> bool" where
  "variablePathGrammar w =
     (case w of [] \<Rightarrow> False | c # cs \<Rightarrow> isAlphaUnderscore c \<and> list_all isPathChar cs)"

text \<open>A chain of wrapper variants around a descriptor.\<close>

datatype wrapper = Optional | Nullable | WithDefault

fun wrap :: "wrapper \<Rightarrow> schema \<Rightarrow> schema" where
  "wrap Optional s = ZodOptional s"
| "wrap Nullable s = ZodNullable s"
| "wrap WithDefault s = ZodDefault s"

definition wrapChain :: "wrapper list \<Rightarrow> schema \<Rightarrow> schema" where
  "wrapChain ws s = foldr wrap ws s"

fun isWrapper :: "schema \<Rightarrow> bool" where
  "isWrapper (ZodOptional s) = True"
| "isWrapper (ZodNullable s) = True"
| "isWrapper (ZodDefault s) = True"
| "isWrapper s = False"

text \<open>
  The constructs of a document in the order of the text: on each line the output
  delimiters, the opening block tags and the closing tags that the scanners find, by
  their index. A document is well formed when every closing construct closes the
  innermost open construct, a closing tag \<open>end<name>\<close> closes a block tag \<open>name\<close>, an
  output-close closes an output-open, and nothing is left open at the end.
\<close>

datatype construct = OutputOpen | OutputClose | BlockOpen string | BlockClose string

definition lineConstructs :: "string \<Rightarrow> construct list" where
  "lineConstructs lineContent =
     map snd (sort_key fst
       (map (\<lambda>(i, g, n). (i, OutputOpen)) (execAll matchOutputStart 0 lineContent)
        @ map (\<lambda>(i, g, n). (i, OutputClose)) (execAll matchOutputEnd 0 lineContent)
        @ map (\<lambda>(i, g, n). (i, BlockOpen g))
            (filter (\<lambda>(i, g, n). \<not> prefix ''end'' g \<and> isBlockTag g)
               (execAll matchTag 0 lineContent))
        @ map (\<lambda>(i, g, n). (i, BlockClose g)) (execAll matchEndTag 0 lineContent)))"

fun properlyNested :: "construct list \<Rightarrow> construct list \<Rightarrow> bool" where
  "properlyNested opened [] = (opened = [])"
| "properlyNested opened (OutputOpen # cs) = properlyNested (OutputOpen # opened) cs"
| "properlyNested opened (BlockOpen t # cs) = properlyNested (BlockOpen t # opened) cs"
| "properlyNested opened (OutputClose # cs) =
     (case opened of
        OutputOpen # rest \<Rightarrow> properlyNested rest cs
      | _ \<Rightarrow> False)"
| "properlyNested opened (BlockClose t # cs) =
     (case opened of
        BlockOpen t' # rest \<Rightarrow> t' = t \<and> properlyNested rest cs
      | _ \<Rightarrow> False)"

definition wellFormedDocument :: "string \<Rightarrow> bool" where
  "wellFormedDocument text =
     properlyNested [] (concat (map lineConstructs (splitLines text)))"

text \<open>
  The descriptor without any wrapper variant, at the root and inside arrays, objects and
  unions.
\<close>

fun stripWrappers :: "schema \<Rightarrow> schema" where
  "stripWrappers (ZodOptional s) = stripWrappers s"
| "stripWrappers (ZodNullable s) = stripWrappers s"
| "stripWrappers (ZodDefault s) = stripWrappers s"
| "stripWrappers (ZodArray e) = ZodArray (stripWrappers e)"
| "stripWrappers (ZodObject shape) = ZodObject (map (map_prod id stripWrappers) shape)"
| "stripWrappers (ZodUnion options) = ZodUnion (map stripWrappers options)"
| "stripWrappers s = s"








section \<open>Properties of the validator\<close>

declare drainStack.simps [simp del]
declare drainStack_index.simps [simp del]
declare popUntilOutput.simps [simp del]
declare getTypeString.simps [simp del]

subsection \<open>The final loop reports the stack from its top\<close>

lemma drainStack_snoc: "drainStack (stack @ [f]) markers = drainStack stack (markers @ [unclosedMarker f])"
  by (subst drainStack.simps) simp

lemma drainStack_rev: "drainStack stack markers = markers @ map unclosedMarker (rev stack)"
proof (induction stack arbitrary: markers rule: rev_induct)
  case Nil
  show ?case by (subst drainStack.simps) simp
next
  case (snoc f stack)
  show ?case by (simp add: drainStack_snoc snoc.IH)
qed

subsection \<open>Closing tags\<close>




subsection \<open>The document \<open>{% if x %}{{ y }}\<close>\<close>

text \<open>
  Claim C3, as amended. The output delimiter of \<open>{% if x %}{{ y }}\<close> is closed on its
  line, so that the only frame left at the end is the one of \<open>if\<close>: the result is the
  one diagnostic \<open>Unclosed tag 'if'\<close>, from column 1 to column 11 of line 1. The frames
  left on the stack are reported one by one from the top of the stack down.
\<close>

theorem unclosed_if_after_closed_output:
  "validateLiquidSyntax ''{% if x %}{{ y }}''
     = [\<lparr>severity = Error,
          message = ''Unclosed tag '' @ [apostrophe] @ ''if'' @ [apostrophe],
          startLineNumber = 1, startColumn = 1, endLineNumber = 1, endColumn = 11\<rparr>]
   \<and> drainStack stack markers = markers @ map unclosedMarker (rev stack)"
proof -
  have "validateLiquidSyntax ''{% if x %}{{ y }}''
     = [\<lparr>severity = Error,
          message = ''Unclosed tag '' @ [apostrophe] @ ''if'' @ [apostrophe],
          startLineNumber = 1, startColumn = 1, endLineNumber = 1, endColumn = 11\<rparr>]"
    by code_simp
  then show ?thesis by (simp add: drainStack_rev)
qed

text \<open>The validator does not yield two diagnostics for this document.\<close>

theorem two_unclosed_counterexample:
  "length (validateLiquidSyntax ''{% if x %}{{ y }}'') \<noteq> 2"
  by code_simp

subsection \<open>Output-close markers\<close>


lemma findLastIndex_None: "findLastIndex p xs = None \<longleftrightarrow> (\<forall>x \<in> set xs. \<not> p x)"
  by (induction xs) (auto split: option.splits)

lemma findLastIndex_Some:
  "findLastIndex p xs = Some i \<Longrightarrow>
     i < length xs \<and> p (xs ! i) \<and> (\<forall>j. i < j \<and> j < length xs \<longrightarrow> \<not> p (xs ! j))"
proof (induction xs arbitrary: i)
  case Nil
  then show ?case by simp
next
  case (Cons x xs)
  show ?case
  proof (cases "findLastIndex p xs")
    case None
    with Cons.prems have i: "i = 0" and px: "p x" by (auto split: if_splits)
    from None have "\<forall>y \<in> set xs. \<not> p y" by (simp add: findLastIndex_None)
    then have "\<forall>j. 0 < j \<and> j < length (x # xs) \<longrightarrow> \<not> p ((x # xs) ! j)"
      by (auto simp: nth_Cons split: nat.splits)
    with i px show ?thesis by simp
  next
    case (Some k)
    with Cons.prems have i: "i = Suc k" by simp
    from Cons.IH [OF Some] have k: "k < length xs" "p (xs ! k)"
      and later: "\<forall>j. k < j \<and> j < length xs \<longrightarrow> \<not> p (xs ! j)" by auto
    have "\<forall>j. Suc k < j \<and> j < length (x # xs) \<longrightarrow> \<not> p ((x # xs) ! j)"
      using later by (auto simp: nth_Cons split: nat.splits)
    with i k show ?thesis by simp
  qed
qed

lemma splice1_keeps_others:
  assumes "i < length xs" and "\<not> q (xs ! i)"
  shows "filter q (splice1 i xs) = filter q xs"
proof -
  have "xs = take i xs @ xs ! i # drop (Suc i) xs"
    using assms(1) by (rule id_take_nth_drop)
  then have "filter q xs = filter q (take i xs) @ filter q (xs ! i # drop (Suc i) xs)"
    by (metis filter_append)
  then show ?thesis using assms(2) by (simp add: splice1_def)
qed

text \<open>
  In the second source file an output-close marker removes the output frame nearest to
  the top of the stack and no other frame; without an output frame on the stack it
  leaves the stack as it is and adds \<open>Unmatched closing '}}'\<close> at the column of the
  marker.
\<close>

lemma replayOutput_end_removes_nearest_output:
  "(findLastIndex (\<lambda>item. tag item = ''output'') stack = Some i \<longrightarrow>
      i < length stack \<and> tag (stack ! i) = ''output''
      \<and> (\<forall>j. i < j \<and> j < length stack \<longrightarrow> tag (stack ! j) \<noteq> ''output'')
      \<and> replayOutput ln (stack, markers) (OEnd, idx)
           = (take i stack @ drop (Suc i) stack, markers)
      \<and> filter (\<lambda>item. tag item \<noteq> ''output'') (fst (replayOutput ln (stack, markers) (OEnd, idx)))
           = filter (\<lambda>item. tag item \<noteq> ''output'') stack)
   \<and> ((\<forall>item \<in> set stack. tag item \<noteq> ''output'') \<longrightarrow>
        replayOutput ln (stack, markers) (OEnd, idx)
          = (stack, markers @ [unmatchedClosing ln idx])
        \<and> startColumn (unmatchedClosing ln idx) = idx + 1)"
proof (intro conjI impI)
  assume s: "findLastIndex (\<lambda>item. tag item = ''output'') stack = Some i"
  from findLastIndex_Some [OF s]
  show "i < length stack" and "tag (stack ! i) = ''output''"
    and "\<forall>j. i < j \<and> j < length stack \<longrightarrow> tag (stack ! j) \<noteq> ''output''"
    by auto
  show "replayOutput ln (stack, markers) (OEnd, idx) = (take i stack @ drop (Suc i) stack, markers)"
    using s by (simp add: splice1_def)
  show "filter (\<lambda>item. tag item \<noteq> ''output'') (fst (replayOutput ln (stack, markers) (OEnd, idx)))
           = filter (\<lambda>item. tag item \<noteq> ''output'') stack"
    using s findLastIndex_Some [OF s]
    by (simp add: splice1_keeps_others)
next
  assume n: "\<forall>item \<in> set stack. tag item \<noteq> ''output''"
  then have "findLastIndex (\<lambda>item. tag item = ''output'') stack = None"
    by (simp add: findLastIndex_None)
  then show "replayOutput ln (stack, markers) (OEnd, idx) = (stack, markers @ [unmatchedClosing ln idx])"
    by simp
  show "startColumn (unmatchedClosing ln idx) = idx + 1"
    by (simp add: unmatchedClosing_def)
qed

text \<open>
  Claim C2, on the validator of \<open>src/index.ts\<close>. There an output-close marker pops
  frames from the top until it has popped an output frame, so that the block-tag frames
  above the output frame are removed with it. In the document of the four lines
  \<open>{{ a\<close>, \<open>{% if b %}\<close>, \<open>}}\<close> and \<open>{% endif %}\<close> the marker of line 3 meets the
  stack of the output frame of line 1 and the \<open>if\<close> frame of line 2 and empties it;
  the closing tag of line 4 then finds no frame and is reported as unmatched. The
  validator of the second source file removes the output frame only and reports
  nothing.
\<close>

theorem output_close_pops_block_frame_index:
  "replayOutput_index 3
      ([\<lparr>tag = ''output'', lineNumber = 1, column = 1\<rparr>,
        \<lparr>tag = ''if'', lineNumber = 2, column = 1\<rparr>], []) (OEnd, 0)
     = ([], [])
   \<and> validateLiquidSyntax_index
        (''{{ a'' @ [CHR 0x0A] @ ''{% if b %}'' @ [CHR 0x0A] @ ''}}'' @ [CHR 0x0A] @ ''{% endif %}'')
     = [\<lparr>severity = Error,
          message = ''Unmatched end tag '' @ [apostrophe] @ ''endif'' @ [apostrophe],
          startLineNumber = 4, startColumn = 1, endLineNumber = 4, endColumn = 12\<rparr>]
   \<and> validateLiquidSyntax
        (''{{ a'' @ [CHR 0x0A] @ ''{% if b %}'' @ [CHR 0x0A] @ ''}}'' @ [CHR 0x0A] @ ''{% endif %}'')
     = []"
  by code_simp

subsection \<open>Blocks that open and close on one line\<close>

text \<open>
  Claim C1, on the document \<open>{% if a %}{% endif %}{% for b in c %}{% endfor %}\<close>. The
  document is well formed. The validator handles all opening tags of a line before all
  closing tags of the line, so that \<open>endif\<close> meets the frame of \<open>for\<close> and \<open>endfor\<close>
  the frame of \<open>if\<close>: the result is two diagnostics.
\<close>

theorem same_line_blocks_reported:
  "wellFormedDocument ''{% if a %}{% endif %}{% for b in c %}{% endfor %}''
   \<and> validateLiquidSyntax ''{% if a %}{% endif %}{% for b in c %}{% endfor %}''
       = [\<lparr>severity = Error,
            message = ''Expected '' @ [apostrophe] @ ''endfor'' @ [apostrophe]
                      @ '' but found '' @ [apostrophe] @ ''endif'' @ [apostrophe],
            startLineNumber = 1, startColumn = 11, endLineNumber = 1, endColumn = 22\<rparr>,
          \<lparr>severity = Error,
            message = ''Expected '' @ [apostrophe] @ ''endif'' @ [apostrophe]
                      @ '' but found '' @ [apostrophe] @ ''endfor'' @ [apostrophe],
            startLineNumber = 1, startColumn = 38, endLineNumber = 1, endColumn = 50\<rparr>]"
  by code_simp

text \<open>
  The same order of handling decides which frame is on top when an output delimiter and
  a block tag of one line both stay open: in \<open>{% if x %}{{ y\<close> the output frame is
  pushed first, and the unclosed \<open>if\<close> is reported before the unclosed output.
\<close>

lemma unclosed_on_one_line:
  "validateLiquidSyntax ''{% if x %}{{ y''
     = [unclosedMarker \<lparr>tag = ''if'', lineNumber = 1, column = 1, length_of = 10\<rparr>,
        unclosedMarker \<lparr>tag = ''output'', lineNumber = 1, column = 11, length_of = 2\<rparr>]"
  by code_simp

section \<open>The two validators compared\<close>






















section \<open>Properties of the schema path resolver\<close>

lemma unwrapSchema_not_wrapper: "\<not> isWrapper (unwrapSchema s)"
  by (induction s rule: unwrapSchema.induct) simp_all

lemma unwrapSchema_idem: "unwrapSchema (unwrapSchema s) = unwrapSchema s"
  by (induction s rule: unwrapSchema.induct) simp_all

lemma unwrapSchema_fixed: "\<not> isWrapper s \<Longrightarrow> unwrapSchema s = s"
  by (cases s) simp_all

lemma unwrapSchema_wrapChain: "unwrapSchema (wrapChain ws s) = unwrapSchema s"
proof (induction ws)
  case Nil
  show ?case by (simp add: wrapChain_def)
next
  case (Cons w ws)
  then show ?case by (cases w) (simp_all add: wrapChain_def)
qed

lemma getTypeString_cong_unwrap:
  "unwrapSchema a = unwrapSchema b \<Longrightarrow> getTypeString a = getTypeString b"
  by (simp add: getTypeString.simps [of a] getTypeString.simps [of b])

lemma navigateLoop_unwrap:
  "map_option unwrapSchema (navigateLoop (unwrapSchema c) q)
     = map_option unwrapSchema (navigateLoop c q)"
  by (cases q) (simp_all add: unwrapSchema_idem)

lemma navigateLoop_append:
  "navigateLoop c (p @ q) = (case navigateLoop c p of None \<Rightarrow> None | Some c' \<Rightarrow> navigateLoop c' q)"
proof (induction p arbitrary: c)
  case Nil
  show ?case by simp
next
  case (Cons a p)
  show ?case
    by (simp add: Cons.IH Let_def split: schema.splits option.splits)
qed

lemma navigateSchema_append:
  assumes "navigateSchema D p = Some R"
  shows "navigateSchema D (p @ q) = navigateSchema R q"
proof -
  from assms obtain c where c: "navigateLoop (unwrapSchema D) p = Some c" and R: "R = unwrapSchema c"
    by (auto simp: navigateSchema_def)
  have "navigateSchema D (p @ q) = map_option unwrapSchema (navigateLoop c q)"
    by (simp add: navigateSchema_def navigateLoop_append c)
  also have "\<dots> = map_option unwrapSchema (navigateLoop (unwrapSchema c) q)"
    by (simp add: navigateLoop_unwrap)
  also have "\<dots> = navigateSchema R q"
    by (simp add: navigateSchema_def R unwrapSchema_idem)
  finally show ?thesis .
qed

text \<open>
  Claim C6. When the path \<open>[a]\<close> resolves against \<open>D\<close> to \<open>R\<close>, the path \<open>[a, b]\<close>
  resolves against \<open>D\<close> to what the path \<open>[b]\<close> resolves to against \<open>R\<close>.
\<close>

theorem navigateSchema_composes:
  "navigateSchema D [a] = Some R \<Longrightarrow> navigateSchema D [a, b] = navigateSchema R [b]"
  using navigateSchema_append [of D "[a]" R "[b]"] by simp

theorem navigateSchema_composes_witness:
  "navigateSchema (ZodObject [(''user'', ZodOptional (ZodObject [(''name'', ZodString)]))]) [''user'']
     = Some (ZodObject [(''name'', ZodString)])
   \<and> navigateSchema (ZodObject [(''user'', ZodOptional (ZodObject [(''name'', ZodString)]))]) [''user'', ''name'']
     = navigateSchema (ZodObject [(''name'', ZodString)]) [''name'']
   \<and> navigateSchema (ZodObject [(''name'', ZodString)]) [''name''] = Some ZodString"
proof -
  have h: "navigateSchema (ZodObject [(''user'', ZodOptional (ZodObject [(''name'', ZodString)]))]) [''user'']
     = Some (ZodObject [(''name'', ZodString)])"
    by code_simp
  have r: "navigateSchema (ZodObject [(''name'', ZodString)]) [''name''] = Some ZodString"
    by code_simp
  from navigateSchema_composes [OF h] h r show ?thesis by simp
qed

lemma stripWrappers_unwrap: "stripWrappers (unwrapSchema s) = stripWrappers s"
  by (induction s rule: unwrapSchema.induct) simp_all

lemma unwrap_stripWrappers: "unwrapSchema (stripWrappers s) = stripWrappers s"
  by (induction s rule: unwrapSchema.induct) simp_all

lemma map_of_strip:
  "map_of (map (map_prod id stripWrappers) shape) k = map_option stripWrappers (map_of shape k)"
  by (induction shape) auto

lemma navigateLoop_strip:
  "navigateLoop (stripWrappers c) p = map_option stripWrappers (navigateLoop c p)"
proof (induction p arbitrary: c)
  case Nil
  show ?case by simp
next
  case (Cons seg rest)
  let ?u = "unwrapSchema c"
  let ?d = "case ?u of ZodArray element \<Rightarrow> unwrapSchema element | _ \<Rightarrow> ?u"
  let ?d' = "case unwrapSchema (stripWrappers c) of
               ZodArray element \<Rightarrow> unwrapSchema element
             | _ \<Rightarrow> unwrapSchema (stripWrappers c)"
  have nw: "\<not> isWrapper ?u" by (rule unwrapSchema_not_wrapper)
  have s: "unwrapSchema (stripWrappers c) = stripWrappers ?u"
    by (simp add: unwrap_stripWrappers stripWrappers_unwrap)
  have nd: "\<not> isWrapper ?d"
    using nw by (cases ?u) (simp_all add: unwrapSchema_not_wrapper)
  have d: "?d' = stripWrappers ?d"
    unfolding s using nw
    by (cases ?u) (simp_all add: unwrap_stripWrappers stripWrappers_unwrap)
  have l: "navigateLoop (stripWrappers c) (seg # rest) =
             (if isArrayIndex seg then navigateLoop (stripWrappers ?d) rest
              else (case stripWrappers ?d of
                 ZodObject shape \<Rightarrow>
                   (case map_of shape seg of Some field \<Rightarrow> navigateLoop field rest | None \<Rightarrow> None)
               | _ \<Rightarrow> None))"
    unfolding d [symmetric] by (simp add: Let_def)
  have r: "navigateLoop c (seg # rest) =
             (if isArrayIndex seg then navigateLoop ?d rest
              else (case ?d of
                 ZodObject shape \<Rightarrow>
                   (case map_of shape seg of Some field \<Rightarrow> navigateLoop field rest | None \<Rightarrow> None)
               | _ \<Rightarrow> None))"
    by (simp add: Let_def)
  show ?case
  proof (cases "isArrayIndex seg")
    case True
    then show ?thesis unfolding l r by (simp add: Cons.IH)
  next
    case False
    then show ?thesis
      unfolding l r using nd
      by (cases ?d) (auto simp: Cons.IH map_of_strip split: option.splits)
  qed
qed

lemma navigateSchema_strip:
  "navigateSchema (stripWrappers s) p = map_option stripWrappers (navigateSchema s p)"
proof -
  have "navigateSchema (stripWrappers s) p
          = map_option unwrapSchema (navigateLoop (stripWrappers (unwrapSchema s)) p)"
    by (simp add: navigateSchema_def unwrap_stripWrappers stripWrappers_unwrap)
  also have "\<dots> = map_option stripWrappers (navigateLoop (unwrapSchema s) p)"
    by (simp add: navigateLoop_strip option.map_comp comp_def unwrap_stripWrappers)
  also have "\<dots> = map_option stripWrappers (navigateSchema s p)"
    by (simp add: navigateSchema_def option.map_comp comp_def stripWrappers_unwrap)
  finally show ?thesis .
qed

lemma getTypeString_strip: "getTypeString (stripWrappers s) = getTypeString s"
proof (induction s rule: getTypeString.induct)
  case (1 schema)
  let ?u = "unwrapSchema schema"
  have nw: "\<not> isWrapper ?u" by (rule unwrapSchema_not_wrapper)
  have a: "getTypeString (stripWrappers schema) = getTypeString (stripWrappers ?u)"
    by (simp add: stripWrappers_unwrap)
  have b: "getTypeString schema = getTypeString ?u"
    by (rule getTypeString_cong_unwrap) (simp add: unwrapSchema_idem)
  show ?case
  proof (cases ?u)
    case (ZodArray e)
    with "1.IH"(1) [of e] show ?thesis
      by (simp add: a b getTypeString.simps [of "ZodArray e"]
          getTypeString.simps [of "ZodArray (stripWrappers e)"])
  next
    case (ZodUnion options)
    with "1.IH"(2) have m: "map (getTypeString \<circ> stripWrappers) options = map getTypeString options"
      by auto
    show ?thesis
      by (simp add: a b ZodUnion m getTypeString.simps [of "ZodUnion options"]
          getTypeString.simps [of "ZodUnion (map stripWrappers options)"])
  next
    case (ZodObject shape)
    then show ?thesis
      by (simp add: a b getTypeString.simps [of "ZodObject shape"]
          getTypeString.simps [of "ZodObject (map (map_prod id stripWrappers) shape)"])
  qed (use nw in \<open>simp_all add: a b\<close>)
qed

text \<open>
  Claim C5. A descriptor that the resolver returns is no wrapper variant. Resolving a
  path against a chain of \<open>Optional\<close>, \<open>Nullable\<close> and \<open>WithDefault\<close> wrappers around
  an object, or around any descriptor, gives what resolving the path against the
  descriptor itself gives, and the renderer gives the same string for both. Wrappers
  at any depth are invisible as well: resolving against the descriptor with all its
  wrappers removed gives the result with all its wrappers removed, and the renderer
  gives the same string.
\<close>

theorem resolver_and_renderer_unwrap:
  "(navigateSchema s p = Some r \<longrightarrow> \<not> isWrapper r \<and> unwrapSchema r = r)
   \<and> navigateSchema (wrapChain ws (ZodObject shape)) p = navigateSchema (ZodObject shape) p
   \<and> navigateSchema (wrapChain ws s) p = navigateSchema s p
   \<and> getTypeString (wrapChain ws s) = getTypeString s
   \<and> navigateSchema (stripWrappers s) p = map_option stripWrappers (navigateSchema s p)
   \<and> getTypeString (stripWrappers s) = getTypeString s"
proof (intro conjI impI)
  assume "navigateSchema s p = Some r"
  then obtain c where "r = unwrapSchema c" by (auto simp: navigateSchema_def)
  then show "\<not> isWrapper r" and "unwrapSchema r = r"
    by (simp_all add: unwrapSchema_not_wrapper unwrapSchema_idem)
next
  show "navigateSchema (wrapChain ws (ZodObject shape)) p = navigateSchema (ZodObject shape) p"
    by (simp add: navigateSchema_def unwrapSchema_wrapChain)
  show "navigateSchema (wrapChain ws s) p = navigateSchema s p"
    by (simp add: navigateSchema_def unwrapSchema_wrapChain)
  show "getTypeString (wrapChain ws s) = getTypeString s"
    by (rule getTypeString_cong_unwrap) (simp add: unwrapSchema_wrapChain unwrapSchema_idem)
  show "navigateSchema (stripWrappers s) p = map_option stripWrappers (navigateSchema s p)"
    by (rule navigateSchema_strip)
  show "getTypeString (stripWrappers s) = getTypeString s"
    by (rule getTypeString_strip)
qed

theorem resolver_and_renderer_unwrap_witness:
  "navigateSchema (ZodOptional (ZodObject [(''name'', ZodNullable ZodString)])) [''name''] = Some ZodString
   \<and> \<not> isWrapper ZodString \<and> unwrapSchema ZodString = ZodString
   \<and> navigateSchema (wrapChain [Optional, WithDefault] (ZodObject [(''name'', ZodNullable ZodString)])) [''name'']
       = navigateSchema (ZodObject [(''name'', ZodNullable ZodString)]) [''name'']
   \<and> getTypeString (wrapChain [Nullable, Optional] (ZodArray ZodNumber)) = getTypeString (ZodArray ZodNumber)"
proof -
  have h: "navigateSchema (ZodOptional (ZodObject [(''name'', ZodNullable ZodString)])) [''name''] = Some ZodString"
    by code_simp
  show ?thesis
    using h
      resolver_and_renderer_unwrap [of "ZodOptional (ZodObject [(''name'', ZodNullable ZodString)])" "[''name'']" ZodString
        "[Optional, WithDefault]" "[(''name'', ZodNullable ZodString)]"]
      resolver_and_renderer_unwrap [of "ZodArray ZodNumber" "[]" ZodOther "[Nullable, Optional]" "[]"]
    by simp
qed


section \<open>Properties of the path extractor\<close>

lemma execVariablePath_sound:
  "execVariablePath s = Some m \<Longrightarrow> suffix m s \<and> variablePathGrammar m"
proof (induction s)
  case Nil
  then show ?case by simp
next
  case (Cons c cs)
  show ?case
  proof (cases "isAlphaUnderscore c \<and> list_all isPathChar cs")
    case True
    with Cons.prems have "m = c # cs" by simp
    with True show ?thesis by (simp add: variablePathGrammar_def)
  next
    case False
    with Cons.prems have "execVariablePath cs = Some m" by auto
    from Cons.IH [OF this] show ?thesis by (simp add: suffix_Cons)
  qed
qed

lemma execVariablePath_longest:
  "suffix w s \<Longrightarrow> variablePathGrammar w \<Longrightarrow>
     \<exists>m. execVariablePath s = Some m \<and> length w \<le> length m"
proof (induction s)
  case Nil
  then show ?case by (simp add: variablePathGrammar_def)
next
  case (Cons c cs)
  show ?case
  proof (cases "isAlphaUnderscore c \<and> list_all isPathChar cs")
    case True
    from Cons.prems(1) have "length w \<le> length (c # cs)" by (rule suffix_length_le)
    with True show ?thesis by simp
  next
    case False
    with Cons.prems have "w \<noteq> c # cs"
      by (auto simp: variablePathGrammar_def)
    with Cons.prems(1) have "suffix w cs" by (simp add: suffix_Cons)
    from Cons.IH [OF this Cons.prems(2)] False show ?thesis by auto
  qed
qed

lemma suffix_same_length: "suffix a s \<Longrightarrow> suffix b s \<Longrightarrow> length a = length b \<Longrightarrow> a = b"
  by (auto simp: suffix_def) 

lemma splitOn_hd: "\<exists>rest. splitOn sep s = takeWhile (\<lambda>c. \<not> sep c) s # rest"
  by (induction s) (auto split: list.splits)

lemma isAlphaUnderscore_no_separator: "isAlphaUnderscore c \<Longrightarrow> \<not> isPathSeparator c"
  by (auto simp: isAlphaUnderscore_def isPathSeparator_def)

lemma pathSegments_of_path:
  assumes "variablePathGrammar m"
  shows "\<exists>rest. pathSegments m = takeWhile (\<lambda>c. \<not> isPathSeparator c) m # rest
            \<and> takeWhile (\<lambda>c. \<not> isPathSeparator c) m \<noteq> []"
proof -
  from assms obtain c cs where m: "m = c # cs" and c: "isAlphaUnderscore c"
    by (auto simp: variablePathGrammar_def split: list.splits)
  from c have ne: "takeWhile (\<lambda>c. \<not> isPathSeparator c) m \<noteq> []"
    by (simp add: m isAlphaUnderscore_no_separator)
  obtain rest where "splitOn isPathSeparator m = takeWhile (\<lambda>c. \<not> isPathSeparator c) m # rest"
    using splitOn_hd by blast
  with ne show ?thesis by (simp add: pathSegments_def)
qed

text \<open>
  Claim C8. The path extractor returns \<open>m\<close> exactly when \<open>m\<close> is a suffix of the text
  before the cursor that matches the grammar \<open>[a-zA-Z_][\w\-.\[\]]*\<close> and no suffix
  that matches is longer; it returns nothing exactly when no suffix matches. The
  segments of a returned string are not empty as a list, the first one is the part of
  the string before its first \<open>.\<close>, \<open>[\<close> or \<open>]\<close> and is not empty, and the schema
  suggestions look the first segment up in the schema set and resolve the remaining
  segments against the schema found.
\<close>

theorem getVariablePathAtPosition_longest_suffix:
  "(getVariablePathAtPosition lineContent col = Some m \<longleftrightarrow>
      suffix m (take (col - 1) lineContent) \<and> variablePathGrammar m
      \<and> (\<forall>w. suffix w (take (col - 1) lineContent) \<and> variablePathGrammar w \<longrightarrow> length w \<le> length m))
   \<and> (getVariablePathAtPosition lineContent col = None \<longleftrightarrow>
        \<not> (\<exists>w. suffix w (take (col - 1) lineContent) \<and> variablePathGrammar w))
   \<and> (getVariablePathAtPosition lineContent col = Some m \<longrightarrow>
        pathSegments m \<noteq> []
        \<and> hd (pathSegments m) = takeWhile (\<lambda>c. \<not> isPathSeparator c) m
        \<and> hd (pathSegments m) \<noteq> []
        \<and> getSchemaSuggestions schemas lineContent col =
            (case map_of schemas (hd (pathSegments m)) of
               None \<Rightarrow> []
             | Some schema \<Rightarrow> getSuggestionsFromSchema schema (tl (pathSegments m))))"
proof (intro conjI)
  let ?t = "take (col - 1) lineContent"
  show "getVariablePathAtPosition lineContent col = Some m \<longleftrightarrow>
      suffix m ?t \<and> variablePathGrammar m
      \<and> (\<forall>w. suffix w ?t \<and> variablePathGrammar w \<longrightarrow> length w \<le> length m)"
  proof
    assume a: "getVariablePathAtPosition lineContent col = Some m"
    then have e: "execVariablePath ?t = Some m" by (simp add: getVariablePathAtPosition_def)
    have "length w \<le> length m" if "suffix w ?t" "variablePathGrammar w" for w
      using execVariablePath_longest [OF that] e by simp
    with execVariablePath_sound [OF e] show "suffix m ?t \<and> variablePathGrammar m
      \<and> (\<forall>w. suffix w ?t \<and> variablePathGrammar w \<longrightarrow> length w \<le> length m)" by blast
  next
    assume a: "suffix m ?t \<and> variablePathGrammar m
      \<and> (\<forall>w. suffix w ?t \<and> variablePathGrammar w \<longrightarrow> length w \<le> length m)"
    then obtain m' where e: "execVariablePath ?t = Some m'" and le: "length m \<le> length m'"
      using execVariablePath_longest [of m ?t] by blast
    from execVariablePath_sound [OF e] a have "length m' \<le> length m" by blast
    with le have "length m' = length m" by simp
    with execVariablePath_sound [OF e] a have "m' = m"
      using suffix_same_length by blast
    with e show "getVariablePathAtPosition lineContent col = Some m"
      by (simp add: getVariablePathAtPosition_def)
  qed
  show "getVariablePathAtPosition lineContent col = None \<longleftrightarrow>
        \<not> (\<exists>w. suffix w ?t \<and> variablePathGrammar w)"
  proof
    assume "getVariablePathAtPosition lineContent col = None"
    then have "execVariablePath ?t = None" by (simp add: getVariablePathAtPosition_def)
    then show "\<not> (\<exists>w. suffix w ?t \<and> variablePathGrammar w)"
      using execVariablePath_longest by fastforce
  next
    assume n: "\<not> (\<exists>w. suffix w ?t \<and> variablePathGrammar w)"
    show "getVariablePathAtPosition lineContent col = None"
    proof (cases "execVariablePath ?t")
      case None
      then show ?thesis by (simp add: getVariablePathAtPosition_def)
    next
      case (Some m')
      from execVariablePath_sound [OF Some] n show ?thesis by blast
    qed
  qed
  show "getVariablePathAtPosition lineContent col = Some m \<longrightarrow>
        pathSegments m \<noteq> []
        \<and> hd (pathSegments m) = takeWhile (\<lambda>c. \<not> isPathSeparator c) m
        \<and> hd (pathSegments m) \<noteq> []
        \<and> getSchemaSuggestions schemas lineContent col =
            (case map_of schemas (hd (pathSegments m)) of
               None \<Rightarrow> []
             | Some schema \<Rightarrow> getSuggestionsFromSchema schema (tl (pathSegments m)))"
  proof
    assume a: "getVariablePathAtPosition lineContent col = Some m"
    then have "execVariablePath ?t = Some m" by (simp add: getVariablePathAtPosition_def)
    from execVariablePath_sound [OF this] have g: "variablePathGrammar m" by simp
    then obtain c cs where m: "m = c # cs"
      by (auto simp: variablePathGrammar_def split: list.splits)
    from pathSegments_of_path [OF g] obtain rest where
      ps: "pathSegments m = takeWhile (\<lambda>c. \<not> isPathSeparator c) m # rest"
      and ne: "takeWhile (\<lambda>c. \<not> isPathSeparator c) m \<noteq> []" by blast
    have "getSchemaSuggestions schemas lineContent col =
            (case map_of schemas (hd (pathSegments m)) of
               None \<Rightarrow> []
             | Some schema \<Rightarrow> getSuggestionsFromSchema schema (tl (pathSegments m)))"
      using a ps unfolding m by (simp add: getSchemaSuggestions_def split: option.splits)
    with ps ne show "pathSegments m \<noteq> []
        \<and> hd (pathSegments m) = takeWhile (\<lambda>c. \<not> isPathSeparator c) m
        \<and> hd (pathSegments m) \<noteq> []
        \<and> getSchemaSuggestions schemas lineContent col =
            (case map_of schemas (hd (pathSegments m)) of
               None \<Rightarrow> []
             | Some schema \<Rightarrow> getSuggestionsFromSchema schema (tl (pathSegments m)))"
      by simp
  qed
qed

theorem getVariablePathAtPosition_longest_suffix_witness:
  "getVariablePathAtPosition ''{{ user.tags[0].na'' 19 = Some ''user.tags[0].na''
   \<and> suffix ''user.tags[0].na'' (take (19 - 1) ''{{ user.tags[0].na'')
   \<and> variablePathGrammar ''user.tags[0].na''
   \<and> suffix ''tags[0].na'' (take (19 - 1) ''{{ user.tags[0].na'')
   \<and> variablePathGrammar ''tags[0].na''
   \<and> length ''tags[0].na'' \<le> length ''user.tags[0].na''
   \<and> pathSegments ''user.tags[0].na'' = [''user'', ''tags'', ''0'', ''na'']
   \<and> hd (pathSegments ''user.tags[0].na'') = ''user''
   \<and> getVariablePathAtPosition ''{{ '' 4 = None"
proof -
  have h: "getVariablePathAtPosition ''{{ user.tags[0].na'' 19 = Some ''user.tags[0].na''"
    by code_simp
  have s: "suffix ''tags[0].na'' (take (19 - 1) ''{{ user.tags[0].na'')"
    by (simp add: suffix_def)
  have g: "variablePathGrammar ''tags[0].na''"
    by code_simp
  have p: "pathSegments ''user.tags[0].na'' = [''user'', ''tags'', ''0'', ''na'']"
    by code_simp
  have n: "getVariablePathAtPosition ''{{ '' 4 = None"
    by code_simp
  from getVariablePathAtPosition_longest_suffix [of "''{{ user.tags[0].na''" 19 "''user.tags[0].na''" "[]"] h
  have "suffix ''user.tags[0].na'' (take (19 - 1) ''{{ user.tags[0].na'')"
    and "variablePathGrammar ''user.tags[0].na''"
    and "\<forall>w. suffix w (take (19 - 1) ''{{ user.tags[0].na'') \<and> variablePathGrammar w
           \<longrightarrow> length w \<le> length ''user.tags[0].na''"
    by blast+
  with h s g p n show ?thesis by simp
qed

end
